theory Spec2Isabelle
  imports Complex_Main
begin

section \<open>JavaScript values\<close>

text \<open>
  The builder of \<^verbatim>\<open>src/index.js\<close> stores and hands on arbitrary JavaScript values and
  never computes with them. The model has the values the builder can tell apart: the
  primitives (for the default parameters and the truthiness tests), arrays, plain objects,
  host objects (a JSBox colour, font, image or point, a \<^verbatim>\<open>Date\<close>), and the builder's
  own nodes, which \<^verbatim>\<open>instanceof BaseWidget\<close> recognises.

  A number is a rational or one of the three special doubles; no arithmetic is done on it.
  A plain object is the list of its own properties in the order they were created; the
  engine's rule that moves index-like names (\<^verbatim>\<open>"0"\<close>, \<^verbatim>\<open>"1"\<close>, ...) to the front of
  an enumeration is not represented, objects are read through \<open>field\<close>.

  A node has the four fields the constructors assign: \<^verbatim>\<open>type\<close>, \<^verbatim>\<open>ordered\<close>,
  \<^verbatim>\<open>_props\<close> (a \<^verbatim>\<open>Map\<close>, here its entries in insertion order, written \<open>u_props\<close>) and
  \<^verbatim>\<open>_views\<close> (an array, written \<open>u_views\<close>). Nodes are values here: a node holds its
  children, so the child lists form a finite tree, and a node that is reachable from its own
  \<^verbatim>\<open>views\<close> is not represented. \<^verbatim>\<open>ordered\<close> is a boolean, as its default
  \<^verbatim>\<open>false\<close> has it, and \<^verbatim>\<open>_views\<close> an array, as the \<^verbatim>\<open>any[]\<close> of \<^verbatim>\<open>setViews\<close>
  has it.
\<close>

datatype jsnum = Finite rat | NaN | Infinity | NegInfinity

datatype jsval =
    JUndefined
  | JNull
  | JBool bool
  | JNum jsnum
  | JStr string
  | JHost nat
  | JArr "jsval list"
  | JObj "(string \<times> jsval) list"
  | JWidget widget
and widget =
  Widget (type: jsval) (ordered: bool) (u_props: "(string \<times> jsval) list") (u_views: "jsval list")

text \<open>\<^verbatim>\<open>ToBoolean\<close>, as \<^verbatim>\<open>!antialiased\<close> applies it: every object is truthy.\<close>

fun truthy :: "jsval \<Rightarrow> bool" where
  "truthy JUndefined = False"
| "truthy JNull = False"
| "truthy (JBool b) = b"
| "truthy (JNum n) = (n \<noteq> Finite 0 \<and> n \<noteq> NaN)"
| "truthy (JStr s) = (s \<noteq> [])"
| "truthy (JHost h) = True"
| "truthy (JArr xs) = True"
| "truthy (JObj ps) = True"
| "truthy (JWidget w) = True"

text \<open>
  \<^verbatim>\<open>Map.prototype.set\<close>, and the creation of a property of a plain object: the value of a
  name that is present is replaced where it stands, a new name goes to the end.
\<close>

fun map_set :: "string \<Rightarrow> jsval \<Rightarrow> (string \<times> jsval) list \<Rightarrow> (string \<times> jsval) list" where
  "map_set name val [] = [(name, val)]"
| "map_set name val ((k, x) # rest) =
     (if k = name then (name, val) # rest else (k, x) # map_set name val rest)"

text \<open>Reading an own property: \<open>field\<close> tells an absent property from one that holds
  \<^verbatim>\<open>undefined\<close>; \<open>get\<close> is the read of a destructuring pattern, \<^verbatim>\<open>undefined\<close> when absent.\<close>

fun field :: "jsval \<Rightarrow> string \<Rightarrow> jsval option" where
  "field (JObj ps) name = map_of ps name"
| "field v name = None"

definition get :: "(string \<times> jsval) list \<Rightarrow> string \<Rightarrow> jsval" where
  "get ps name = (case map_of ps name of None \<Rightarrow> JUndefined | Some v \<Rightarrow> v)"

text \<open>\<^verbatim>\<open>Object.fromEntries\<close>: a fresh object that receives the entries one after the other.\<close>

definition fromEntries :: "(string \<times> jsval) list \<Rightarrow> jsval" where
  "fromEntries es = JObj (foldl (\<lambda>obj (k, v). map_set k v obj) [] es)"

text \<open>A parameter with the default \<^verbatim>\<open>= true\<close>: the default stands in for \<^verbatim>\<open>undefined\<close>,
  which is also what an omitted argument is.\<close>

definition default_true :: "jsval \<Rightarrow> jsval" where
  "default_true b = (if b = JUndefined then JBool True else b)"

section \<open>BaseWidget\<close>

text \<open>\<^verbatim>\<open>constructor(ordered = false)\<close>: no \<^verbatim>\<open>type\<close> yet, an empty \<^verbatim>\<open>Map\<close>, no views.\<close>

definition BaseWidget :: "bool \<Rightarrow> widget" where
  "BaseWidget ord = Widget JUndefined ord [] []"

definition type_set :: "widget \<Rightarrow> jsval \<Rightarrow> widget" where
  "type_set view t = Widget t (ordered view) (u_props view) (u_views view)"

text \<open>The getters \<^verbatim>\<open>views\<close>, \<^verbatim>\<open>props\<close>, \<^verbatim>\<open>modifiers\<close> and the setter of \<^verbatim>\<open>views\<close>.\<close>

definition views :: "widget \<Rightarrow> jsval list" where
  "views view = u_views view"

definition views_set :: "widget \<Rightarrow> jsval list \<Rightarrow> widget" where
  "views_set view arr = Widget (type view) (ordered view) (u_props view) arr"

definition props :: "widget \<Rightarrow> jsval" where
  "props view = fromEntries (u_props view)"

definition modifiers :: "widget \<Rightarrow> jsval" where
  "modifiers view = JArr (map (\<lambda>n. fromEntries [n]) (u_props view))"

text \<open>
  \<^verbatim>\<open>_getDefinition(view)\<close>: the object is built by three assignments. The test
  \<^verbatim>\<open>view.views && view.views.length\<close> is that of a non-empty array.
\<close>

fun getDefinition :: "widget \<Rightarrow> jsval" where
  "getDefinition (Widget t ord ps vs) =
     (let view = Widget t ord ps vs;
          d0 = [];
          d1 = map_set ''type'' (type view) d0;
          d2 = (if ordered view then map_set ''modifiers'' (modifiers view) d1
                else map_set ''props'' (props view) d1);
          d3 = (if vs \<noteq> []
                then map_set ''views''
                  (JArr (map (\<lambda>n. case n of JWidget c \<Rightarrow> getDefinition c | _ \<Rightarrow> n) vs)) d2
                else d2)
      in JObj d3)"

section \<open>Methods\<close>

text \<open>
  A method call changes the receiver and completes: with \<^verbatim>\<open>return this\<close>, with another
  value (\<^verbatim>\<open>undefined\<close> when the body ends without \<^verbatim>\<open>return\<close>), or with a thrown
  \<^verbatim>\<open>TypeError\<close>. \<open>ReturnThis\<close> is the receiver itself, the object a chained call goes to.
\<close>

datatype error = TypeError

datatype completion = ReturnThis | Return jsval | Throw error

definition u_setProps :: "widget \<Rightarrow> string \<Rightarrow> jsval \<Rightarrow> widget" where
  "u_setProps view name val =
     Widget (type view) (ordered view) (map_set name val (u_props view)) (u_views view)"

definition setViews :: "widget \<Rightarrow> jsval list \<Rightarrow> widget \<times> completion" where
  "setViews view arr = (views_set view arr, ReturnThis)"

definition setProps :: "widget \<Rightarrow> string \<Rightarrow> jsval \<Rightarrow> widget \<times> completion" where
  "setProps view name val = (u_setProps view name val, ReturnThis)"

text \<open>
  \<^verbatim>\<open>frame\<close> and \<^verbatim>\<open>border\<close> take an object literal and destructure it. The argument is
  the literal's property list, or \<open>None\<close> when the call passes none: \<^verbatim>\<open>frame\<close> then takes
  its default \<^verbatim>\<open>{}\<close>, \<^verbatim>\<open>border\<close> has no default and the destructuring of
  \<^verbatim>\<open>undefined\<close> throws.
\<close>

definition frame :: "widget \<Rightarrow> (string \<times> jsval) list option \<Rightarrow> widget \<times> completion" where
  "frame view arg =
     (let p = (case arg of None \<Rightarrow> [] | Some ps \<Rightarrow> ps)
      in (u_setProps view ''frame''
            (JObj [(''width'', get p ''width''),
                   (''height'', get p ''height''),
                   (''alignment'', get p ''alignment''),
                   (''minWidth'', get p ''minWidth''),
                   (''idealWidth'', get p ''idealWidth''),
                   (''maxWidth'', get p ''maxWidth''),
                   (''minHeight'', get p ''minHeight''),
                   (''idealHeight'', get p ''idealHeight''),
                   (''maxHeight'', get p ''maxHeight'')]),
          ReturnThis))"

definition border :: "widget \<Rightarrow> (string \<times> jsval) list option \<Rightarrow> widget \<times> completion" where
  "border view arg =
     (case arg of
        None \<Rightarrow> (view, Throw TypeError)
      | Some p \<Rightarrow>
          (u_setProps view ''border'' (JObj [(''color'', get p ''color''), (''width'', get p ''width'')]),
           ReturnThis))"

definition layoutPriority :: "widget \<Rightarrow> jsval \<Rightarrow> widget \<times> completion" where
  "layoutPriority view num = (u_setProps view ''layoutPriority'' num, Return JUndefined)"

definition clipped :: "widget \<Rightarrow> jsval \<Rightarrow> jsval \<Rightarrow> widget \<times> completion" where
  "clipped view b antialiased =
     (let bool = default_true b
      in if \<not> truthy antialiased then (u_setProps view ''clipped'' bool, ReturnThis)
         else (u_setProps view ''clipped'' (JObj [(''antialiased'', JBool True)]), ReturnThis))"

text \<open>
  The public call surface: the accessors and methods of \<^verbatim>\<open>BaseWidget\<close>, then those the
  eleven subclasses add. \<^verbatim>\<open>Color.color\<close> and the \<^verbatim>\<open>alignment\<close> and \<^verbatim>\<open>spacing\<close> of the
  stacks and grids have one body each, so one call stands for them. Which class defines
  which method is not represented: a call of a method the receiver lacks throws before any
  body runs and leaves the node as it is. \<^verbatim>\<open>_setProps\<close> is internal and not a call.
\<close>

datatype call =
    Call_definition
  | Call_views
  | Call_views_assign "jsval list"
  | Call_props
  | Call_modifiers
  | Call_setViews "jsval list"
  | Call_setProps string jsval
  | Call_frame "(string \<times> jsval) list option"
  | Call_position jsval
  | Call_offset jsval
  | Call_padding jsval
  | Call_layoutPriority jsval
  | Call_cornerRadius jsval
  | Call_border "(string \<times> jsval) list option"
  | Call_clipped jsval jsval
  | Call_opacity jsval
  | Call_blur jsval
  | Call_color jsval
  | Call_background jsval
  | Call_link jsval
  | Call_widgetURL jsval
  | Call_text jsval
  | Call_date jsval
  | Call_style jsval
  | Call_startDate jsval
  | Call_endDate jsval
  | Call_bold jsval
  | Call_font jsval
  | Call_lineLimit jsval
  | Call_minimumScaleFactor jsval
  | Call_image jsval
  | Call_symbol jsval
  | Call_path jsval
  | Call_uri jsval
  | Call_resizable jsval
  | Call_scaledToFill jsval
  | Call_scaledToFit jsval
  | Call_accessibilityHidden jsval
  | Call_accessibilityLabel jsval
  | Call_accessibilityHint jsval
  | Call_light jsval
  | Call_dark jsval
  | Call_startPoint jsval
  | Call_endPoint jsval
  | Call_locations jsval
  | Call_colors jsval
  | Call_alignment jsval
  | Call_spacing jsval
  | Call_minLength jsval
  | Call_rows jsval
  | Call_columns jsval

fun invoke :: "widget \<Rightarrow> call \<Rightarrow> widget \<times> completion" where
  "invoke w Call_definition = (w, Return (getDefinition w))"
| "invoke w Call_views = (w, Return (JArr (views w)))"
| "invoke w (Call_views_assign arr) = (views_set w arr, Return (JArr arr))"
| "invoke w Call_props = (w, Return (props w))"
| "invoke w Call_modifiers = (w, Return (modifiers w))"
| "invoke w (Call_setViews arr) = setViews w arr"
| "invoke w (Call_setProps name val) = setProps w name val"
| "invoke w (Call_frame arg) = frame w arg"
| "invoke w (Call_position point) = (u_setProps w ''position'' point, ReturnThis)"
| "invoke w (Call_offset point) = (u_setProps w ''offset'' point, ReturnThis)"
| "invoke w (Call_padding param) = (u_setProps w ''padding'' param, ReturnThis)"
| "invoke w (Call_layoutPriority num) = layoutPriority w num"
| "invoke w (Call_cornerRadius param) = (u_setProps w ''cornerRadius'' param, ReturnThis)"
| "invoke w (Call_border arg) = border w arg"
| "invoke w (Call_clipped b antialiased) = clipped w b antialiased"
| "invoke w (Call_opacity num) = (u_setProps w ''opacity'' num, ReturnThis)"
| "invoke w (Call_blur num) = (u_setProps w ''blur'' num, ReturnThis)"
| "invoke w (Call_color c) = (u_setProps w ''color'' c, ReturnThis)"
| "invoke w (Call_background param) = (u_setProps w ''background'' param, ReturnThis)"
| "invoke w (Call_link url) = (u_setProps w ''link'' url, ReturnThis)"
| "invoke w (Call_widgetURL url) = (u_setProps w ''widgetURL'' url, ReturnThis)"
| "invoke w (Call_text t) = (u_setProps w ''text'' t, ReturnThis)"
| "invoke w (Call_date d) = (u_setProps w ''date'' d, ReturnThis)"
| "invoke w (Call_style num) = (u_setProps w ''style'' num, ReturnThis)"
| "invoke w (Call_startDate d) = (u_setProps w ''startDate'' d, ReturnThis)"
| "invoke w (Call_endDate d) = (u_setProps w ''endDate'' d, ReturnThis)"
| "invoke w (Call_bold b) = (u_setProps w ''bold'' (default_true b), ReturnThis)"
| "invoke w (Call_font f) = (u_setProps w ''font'' f, ReturnThis)"
| "invoke w (Call_lineLimit num) = (u_setProps w ''lineLimit'' num, ReturnThis)"
| "invoke w (Call_minimumScaleFactor num) = (u_setProps w ''minimumScaleFactor'' num, ReturnThis)"
| "invoke w (Call_image i) = (u_setProps w ''image'' i, ReturnThis)"
| "invoke w (Call_symbol s) = (u_setProps w ''symbol'' s, ReturnThis)"
| "invoke w (Call_path p) = (u_setProps w ''path'' p, ReturnThis)"
| "invoke w (Call_uri u) = (u_setProps w ''uri'' u, ReturnThis)"
| "invoke w (Call_resizable b) = (u_setProps w ''resizable'' (default_true b), ReturnThis)"
| "invoke w (Call_scaledToFill b) = (u_setProps w ''scaledToFill'' (default_true b), ReturnThis)"
| "invoke w (Call_scaledToFit b) = (u_setProps w ''scaledToFit'' (default_true b), ReturnThis)"
| "invoke w (Call_accessibilityHidden b) =
     (u_setProps w ''accessibilityHidden'' (default_true b), ReturnThis)"
| "invoke w (Call_accessibilityLabel b) =
     (u_setProps w ''accessibilityLabel'' (default_true b), ReturnThis)"
| "invoke w (Call_accessibilityHint b) =
     (u_setProps w ''accessibilityHint'' (default_true b), ReturnThis)"
| "invoke w (Call_light hex) = (u_setProps w ''light'' hex, ReturnThis)"
| "invoke w (Call_dark hex) = (u_setProps w ''dark'' hex, ReturnThis)"
| "invoke w (Call_startPoint point) = (u_setProps w ''startPoint'' point, ReturnThis)"
| "invoke w (Call_endPoint point) = (u_setProps w ''endPoint'' point, ReturnThis)"
| "invoke w (Call_locations arr) = (u_setProps w ''locations'' arr, ReturnThis)"
| "invoke w (Call_colors arr) = (u_setProps w ''colors'' arr, ReturnThis)"
| "invoke w (Call_alignment num) = (u_setProps w ''alignment'' num, ReturnThis)"
| "invoke w (Call_spacing num) = (u_setProps w ''spacing'' num, ReturnThis)"
| "invoke w (Call_minLength num) = (u_setProps w ''minLength'' num, ReturnThis)"
| "invoke w (Call_rows arr) = (u_setProps w ''rows'' arr, ReturnThis)"
| "invoke w (Call_columns arr) = (u_setProps w ''columns'' arr, ReturnThis)"

text \<open>A sequence of calls on one node, whatever each call completes with.\<close>

definition perform :: "widget \<Rightarrow> call list \<Rightarrow> widget" where
  "perform w cs = foldl (\<lambda>v c. fst (invoke v c)) w cs"

section \<open>The exported classes\<close>

datatype variant =
  Text | Image | Color | Gradient | Divider | Hstack | Vstack | Zstack | Spacer | Hgrid | Vgrid

text \<open>Each constructor is \<^verbatim>\<open>super()\<close>, with no argument, and the assignment of \<^verbatim>\<open>type\<close>.\<close>

fun new :: "variant \<Rightarrow> widget" where
  "new Text = type_set (BaseWidget False) (JStr ''text'')"
| "new Image = type_set (BaseWidget False) (JStr ''image'')"
| "new Color = type_set (BaseWidget False) (JStr ''color'')"
| "new Gradient = type_set (BaseWidget False) (JStr ''gradient'')"
| "new Hstack = type_set (BaseWidget False) (JStr ''hstack'')"
| "new Vstack = type_set (BaseWidget False) (JStr ''vstack'')"
| "new Zstack = type_set (BaseWidget False) (JStr ''zstack'')"
| "new Spacer = type_set (BaseWidget False) (JStr ''spacer'')"
| "new Divider = type_set (BaseWidget False) (JStr ''divider'')"
| "new Hgrid = type_set (BaseWidget False) (JStr ''hgrid'')"
| "new Vgrid = type_set (BaseWidget False) (JStr ''vgrid'')"

section \<open>Facts about the store and the serializer\<close>

lemma map_set_keys:
  "map fst (map_set name val ps) =
     (if name \<in> set (map fst ps) then map fst ps else map fst ps @ [name])"
  by (induction name val ps rule: map_set.induct) (auto simp: image_iff)

lemma map_set_distinct:
  "distinct (map fst ps) \<Longrightarrow> distinct (map fst (map_set name val ps))"
  by (simp add: map_set_keys)

lemma map_of_map_set: "map_of (map_set name val ps) = (map_of ps)(name \<mapsto> val)"
  by (induction ps) (auto simp: fun_eq_iff)

lemma map_set_fresh: "name \<notin> set (map fst ps) \<Longrightarrow> map_set name val ps = ps @ [(name, val)]"
  by (induction ps) auto

lemma map_set_present:
  "name \<in> set (map fst ps) \<Longrightarrow> distinct (map fst ps) \<Longrightarrow>
   map_set name val ps = map (\<lambda>(k, x). (k, if k = name then val else x)) ps"
proof (induction ps)
  case Nil
  then show ?case by simp
next
  case (Cons e ps)
  obtain k x where e: "e = (k, x)" by (cases e)
  show ?case
  proof (cases "k = name")
    case True
    with Cons.prems e have "name \<notin> set (map fst ps)" by auto
    then have "map (\<lambda>(k, x). (k, if k = name then val else x)) ps = ps"
      by (induction ps) auto
    with True e show ?thesis by simp
  next
    case False
    with Cons e show ?thesis by auto
  qed
qed

lemma foldl_map_set_fresh:
  "distinct (map fst es) \<Longrightarrow> set (map fst es) \<inter> set (map fst acc) = {} \<Longrightarrow>
   foldl (\<lambda>obj (k, v). map_set k v obj) acc es = acc @ es"
proof (induction es arbitrary: acc)
  case Nil
  then show ?case by simp
next
  case (Cons e es)
  obtain k v where e: "e = (k, v)" by (cases e)
  from Cons.prems e have fresh: "k \<notin> set (map fst acc)" by auto
  from Cons.prems e have "set (map fst es) \<inter> set (map fst (acc @ [(k, v)])) = {}" by auto
  with Cons.IH [of "acc @ [(k, v)]"] Cons.prems e fresh show ?case
    by (simp add: map_set_fresh)
qed

lemma fromEntries_distinct: "distinct (map fst es) \<Longrightarrow> fromEntries es = JObj es"
  using foldl_map_set_fresh [of es "[]"] by (simp add: fromEntries_def)

lemma fromEntries_single: "fromEntries [(k, v)] = JObj [(k, v)]"
  by (simp add: fromEntries_def)

lemma modifiers_eq: "modifiers w = JArr (map (\<lambda>(k, v). JObj [(k, v)]) (u_props w))"
  by (auto simp: modifiers_def fromEntries_def)

lemma field_type: "field (getDefinition w) ''type'' = Some (type w)"
  by (cases w) (simp add: Let_def)

lemma field_modifiers:
  "field (getDefinition w) ''modifiers'' = (if ordered w then Some (modifiers w) else None)"
  by (cases w) (simp add: Let_def)

lemma field_props:
  "field (getDefinition w) ''props'' = (if ordered w then None else Some (props w))"
  by (cases w) (simp add: Let_def)

lemma field_views:
  "field (getDefinition w) ''views'' =
     (if u_views w = [] then None
      else Some (JArr (map (\<lambda>n. case n of JWidget c \<Rightarrow> getDefinition c | _ \<Rightarrow> n) (u_views w))))"
  by (cases w) (simp add: Let_def)

section \<open>Facts about the methods\<close>

lemma invoke_type: "type (fst (invoke w c)) = type w"
  by (cases c) (simp_all add: views_set_def setViews_def setProps_def u_setProps_def frame_def
      border_def layoutPriority_def clipped_def Let_def split: option.splits)

lemma invoke_ordered: "ordered (fst (invoke w c)) = ordered w"
  by (cases c) (simp_all add: views_set_def setViews_def setProps_def u_setProps_def frame_def
      border_def layoutPriority_def clipped_def Let_def split: option.splits)

lemma invoke_distinct:
  "distinct (map fst (u_props w)) \<Longrightarrow> distinct (map fst (u_props (fst (invoke w c))))"
  by (cases c) (simp_all add: views_set_def setViews_def setProps_def u_setProps_def frame_def
      border_def layoutPriority_def clipped_def Let_def map_set_distinct split: option.splits)

lemma perform_distinct:
  "distinct (map fst (u_props w)) \<Longrightarrow> distinct (map fst (u_props (perform w cs)))"
  unfolding perform_def by (induction cs arbitrary: w) (simp_all add: invoke_distinct)

lemma perform_type: "type (perform w cs) = type w"
  unfolding perform_def by (induction cs arbitrary: w) (simp_all add: invoke_type)

lemma perform_ordered: "ordered (perform w cs) = ordered w"
  unfolding perform_def by (induction cs arbitrary: w) (simp_all add: invoke_ordered)

lemma perform_append: "perform w (cs @ ds) = perform (perform w cs) ds"
  by (simp add: perform_def)

lemma perform_setProps:
  "perform w [Call_setProps name val] = u_setProps w name val"
  by (simp add: perform_def setProps_def)

lemma u_props_setProps: "u_props (u_setProps w name val) = map_set name val (u_props w)"
  by (simp add: u_setProps_def)

lemma props_distinct: "distinct (map fst (u_props w)) \<Longrightarrow> props w = JObj (u_props w)"
  by (simp add: props_def fromEntries_distinct)

lemma reachable_distinct: "u_props w0 = [] \<Longrightarrow> distinct (map fst (u_props (perform w0 cs)))"
  by (rule perform_distinct) simp

lemma map_of_present: "map_of ps name = Some old \<Longrightarrow> name \<in> set (map fst ps)"
  by (metis domI dom_map_of_conv_image_fst set_map)

lemma field_single: "field (JObj [(k, x)]) name = (if k = name then Some x else None)"
  by simp

lemma modifiers_overwrite:
  assumes "distinct (map fst ps)" and "name \<in> set (map fst ps)"
  shows "map (\<lambda>(k, x). JObj [(k, x)]) (map_set name val ps) =
         map (\<lambda>m. if field m name \<noteq> None then JObj [(name, val)] else m)
           (map (\<lambda>(k, x). JObj [(k, x)]) ps)"
proof -
  have "map (\<lambda>(k, x). JObj [(k, x)]) (map (\<lambda>(k, x). (k, if k = name then val else x)) ps) =
        map (\<lambda>m. if field m name \<noteq> None then JObj [(name, val)] else m)
           (map (\<lambda>(k, x). JObj [(k, x)]) ps)"
    by (induction ps) auto
  with assms show ?thesis by (simp add: map_set_present)
qed

lemma perform_setProps_fresh:
  "distinct (map fst kvs) \<Longrightarrow> set (map fst kvs) \<inter> set (map fst (u_props w)) = {} \<Longrightarrow>
   u_props (perform w (map (\<lambda>(k, v). Call_setProps k v) kvs)) = u_props w @ kvs"
proof (induction kvs arbitrary: w)
  case Nil
  then show ?case by (simp add: perform_def)
next
  case (Cons e kvs)
  obtain k v where e: "e = (k, v)" by (cases e)
  let ?w = "u_setProps w k v"
  from Cons.prems e have fresh: "k \<notin> set (map fst (u_props w))" by auto
  then have store: "u_props ?w = u_props w @ [(k, v)]"
    by (simp add: u_props_setProps map_set_fresh)
  from Cons.prems e have "distinct (map fst kvs)"
    and "set (map fst kvs) \<inter> set (map fst (u_props ?w)) = {}"
    by (auto simp: store)
  then have "u_props (perform ?w (map (\<lambda>(k, v). Call_setProps k v) kvs)) = u_props ?w @ kvs"
    by (rule Cons.IH)
  then show ?case
    using e store by (simp add: perform_def setProps_def)
qed

lemma new_ordered: "ordered (new v) = False"
  by (cases v) (simp_all add: BaseWidget_def type_set_def)

lemma setters_return_this:
  assumes "c \<noteq> Call_definition" "c \<noteq> Call_views" "c \<noteq> Call_props" "c \<noteq> Call_modifiers"
    and "\<forall>arr. c \<noteq> Call_views_assign arr"
    and "\<forall>num. c \<noteq> Call_layoutPriority num"
    and "c \<noteq> Call_border None"
  shows "snd (invoke w c) = ReturnThis"
  using assms
  by (cases c) (auto simp: setViews_def setProps_def frame_def border_def clipped_def Let_def
      split: option.splits)

section \<open>Claims\<close>

text \<open>
  C1. The definition of every node has exactly one of the two attribute encodings, chosen
  by \<^verbatim>\<open>ordered\<close>: with \<^verbatim>\<open>ordered\<close> true it has a field \<^verbatim>\<open>modifiers\<close> and no field
  \<^verbatim>\<open>props\<close>, with \<^verbatim>\<open>ordered\<close> false a field \<^verbatim>\<open>props\<close> and no field \<^verbatim>\<open>modifiers\<close>.
  The field is there for an empty attribute store too, where \<^verbatim>\<open>props\<close> is the empty
  object and \<^verbatim>\<open>modifiers\<close> the empty array.
\<close>

theorem C1_one_encoding:
  "(ordered w \<longrightarrow>
      field (getDefinition w) ''modifiers'' \<noteq> None \<and> field (getDefinition w) ''props'' = None) \<and>
   (\<not> ordered w \<longrightarrow>
      field (getDefinition w) ''props'' \<noteq> None \<and> field (getDefinition w) ''modifiers'' = None) \<and>
   (u_props w = [] \<and> ordered w \<longrightarrow> field (getDefinition w) ''modifiers'' = Some (JArr [])) \<and>
   (u_props w = [] \<and> \<not> ordered w \<longrightarrow> field (getDefinition w) ''props'' = Some (JObj []))"
  by (simp add: field_modifiers field_props modifiers_def props_def fromEntries_def)

theorem C1_one_encoding_witness:
  "ordered (BaseWidget True) \<and> u_props (BaseWidget True) = [] \<and>
   field (getDefinition (BaseWidget True)) ''modifiers'' = Some (JArr []) \<and>
   field (getDefinition (BaseWidget True)) ''props'' = None \<and>
   \<not> ordered (new Divider) \<and> u_props (new Divider) = [] \<and>
   field (getDefinition (new Divider)) ''props'' = Some (JObj []) \<and>
   field (getDefinition (new Divider)) ''modifiers'' = None"
  using C1_one_encoding [of "BaseWidget True"] C1_one_encoding [of "new Divider"]
  by (simp add: BaseWidget_def type_set_def)


text \<open>
  C2. The definition of every node has no field \<^verbatim>\<open>views\<close> when the list of children
  is empty. When the list is not empty, \<^verbatim>\<open>views\<close> is the array of the children in
  their order, where a child that is a node stands as its own definition, computed the same
  way, and any other child stands unchanged.
\<close>

theorem C2_views:
  "(u_views w = [] \<longrightarrow> field (getDefinition w) ''views'' = None) \<and>
   (u_views w \<noteq> [] \<longrightarrow>
      field (getDefinition w) ''views'' =
        Some (JArr (map (\<lambda>n. case n of JWidget c \<Rightarrow> getDefinition c | _ \<Rightarrow> n) (u_views w))))"
  by (simp add: field_views)

theorem C2_views_witness:
  "u_views (new Zstack) = [] \<and> field (getDefinition (new Zstack)) ''views'' = None \<and>
   u_views (perform (new Zstack) [Call_setViews [JWidget (new Text), JStr ''raw'']]) \<noteq> [] \<and>
   field (getDefinition (perform (new Zstack) [Call_setViews [JWidget (new Text), JStr ''raw'']])) ''views'' =
     Some (JArr [JObj [(''type'', JStr ''text''), (''props'', JObj [])], JStr ''raw''])"
  using C2_views [of "new Zstack"]
    C2_views [of "perform (new Zstack) [Call_setViews [JWidget (new Text), JStr ''raw'']]"]
  by (simp add: perform_def setViews_def views_set_def BaseWidget_def type_set_def props_def fromEntries_def)

text \<open>
  C3. On a node with \<^verbatim>\<open>ordered\<close> false, setting an attribute that is already set
  overwrites its value and appends no second entry: the names of \<^verbatim>\<open>props\<close> stay as
  they were, without a duplicate, and \<^verbatim>\<open>props\<close> maps the name to the new value and
  every other name as before. After \<^verbatim>\<open>a\<close>, \<^verbatim>\<open>b\<close> and \<^verbatim>\<open>a\<close> again are set on a new
  node, \<^verbatim>\<open>props\<close> is \<^verbatim>\<open>{a: v3, b: v2}\<close>. The store of a node that was created empty
  never holds two entries of one name, whatever calls were made on it.
\<close>

theorem C3_overwrite_unordered:
  assumes "u_props w0 = []" and "\<not> ordered w0"
  shows "distinct (map fst (u_props (perform w0 cs))) \<and>
    (map_of (u_props (perform w0 cs)) name = Some old \<longrightarrow>
      (\<exists>ps ps'. field (getDefinition (perform w0 cs)) ''props'' = Some (JObj ps) \<and>
         field (getDefinition (perform w0 (cs @ [Call_setProps name val]))) ''props'' = Some (JObj ps') \<and>
         map fst ps' = map fst ps \<and> distinct (map fst ps') \<and>
         map_of ps' = (map_of ps)(name \<mapsto> val))) \<and>
    (a \<noteq> b \<longrightarrow>
      field (getDefinition (perform w0 [Call_setProps a v1, Call_setProps b v2, Call_setProps a v3]))
        ''props'' = Some (JObj [(a, v3), (b, v2)]))"
proof (intro conjI impI)
  let ?w = "perform w0 cs"
  show d: "distinct (map fst (u_props ?w))"
    using assms(1) by (rule reachable_distinct)
  have unord: "\<And>ds. \<not> ordered (perform w0 ds)"
    using assms(2) by (simp add: perform_ordered)
  {
    assume present: "map_of (u_props ?w) name = Some old"
    let ?w' = "perform w0 (cs @ [Call_setProps name val])"
    have store': "u_props ?w' = map_set name val (u_props ?w)"
      by (simp add: perform_append perform_setProps u_props_setProps)
    have d': "distinct (map fst (u_props ?w'))"
      using assms(1) by (rule reachable_distinct)
    have "field (getDefinition ?w) ''props'' = Some (JObj (u_props ?w))"
      using unord d by (simp add: field_props props_distinct)
    moreover have "field (getDefinition ?w') ''props'' = Some (JObj (u_props ?w'))"
      using unord d' by (simp add: field_props props_distinct)
    moreover have "map fst (u_props ?w') = map fst (u_props ?w)"
      using map_of_present [OF present] by (simp add: store' map_set_keys)
    moreover have "map_of (u_props ?w') = (map_of (u_props ?w))(name \<mapsto> val)"
      by (simp add: store' map_of_map_set)
    ultimately show "\<exists>ps ps'. field (getDefinition ?w) ''props'' = Some (JObj ps) \<and>
         field (getDefinition ?w') ''props'' = Some (JObj ps') \<and>
         map fst ps' = map fst ps \<and> distinct (map fst ps') \<and>
         map_of ps' = (map_of ps)(name \<mapsto> val)"
      using d' by blast
  }
  {
    assume ab: "a \<noteq> b"
    let ?u = "perform w0 [Call_setProps a v1, Call_setProps b v2, Call_setProps a v3]"
    have "u_props ?u = [(a, v3), (b, v2)]"
      using assms(1) ab by (simp add: perform_def setProps_def u_setProps_def)
    moreover have "distinct (map fst (u_props ?u))"
      using assms(1) by (rule reachable_distinct)
    ultimately show "field (getDefinition ?u) ''props'' = Some (JObj [(a, v3), (b, v2)])"
      using unord [of "[Call_setProps a v1, Call_setProps b v2, Call_setProps a v3]"]
      by (simp add: field_props props_distinct)
  }
qed

theorem C3_overwrite_unordered_witness:
  "u_props (new Text) = [] \<and> \<not> ordered (new Text) \<and>
   map_of (u_props (perform (new Text)
       [Call_setProps ''a'' (JNum (Finite 1)), Call_setProps ''b'' (JNum (Finite 2))])) ''a''
     = Some (JNum (Finite 1)) \<and>
   ''a'' \<noteq> ''b'' \<and>
   distinct (map fst (u_props (perform (new Text)
       [Call_setProps ''a'' (JNum (Finite 1)), Call_setProps ''b'' (JNum (Finite 2))]))) \<and>
   (\<exists>ps ps'. field (getDefinition (perform (new Text)
         [Call_setProps ''a'' (JNum (Finite 1)), Call_setProps ''b'' (JNum (Finite 2))])) ''props''
       = Some (JObj ps) \<and>
     field (getDefinition (perform (new Text)
         ([Call_setProps ''a'' (JNum (Finite 1)), Call_setProps ''b'' (JNum (Finite 2))] @
          [Call_setProps ''a'' (JNum (Finite 3))]))) ''props''
       = Some (JObj ps') \<and>
     map fst ps' = map fst ps \<and> distinct (map fst ps') \<and>
     map_of ps' = (map_of ps)(''a'' \<mapsto> JNum (Finite 3))) \<and>
   field (getDefinition (perform (new Text)
       [Call_setProps ''a'' (JNum (Finite 1)), Call_setProps ''b'' (JNum (Finite 2)),
        Call_setProps ''a'' (JNum (Finite 3))])) ''props''
     = Some (JObj [(''a'', JNum (Finite 3)), (''b'', JNum (Finite 2))])"
proof -
  have e: "u_props (new Text) = []" and o: "\<not> ordered (new Text)"
    by (simp_all add: BaseWidget_def type_set_def)
  have ab: "''a'' \<noteq> ''b''" by simp
  have p: "map_of (u_props (perform (new Text)
       [Call_setProps ''a'' (JNum (Finite 1)), Call_setProps ''b'' (JNum (Finite 2))])) ''a''
     = Some (JNum (Finite 1))"
    by (simp add: perform_def setProps_def u_setProps_def BaseWidget_def type_set_def)
  show ?thesis
    using e o p ab
      C3_overwrite_unordered [OF e o,
        where cs = "[Call_setProps ''a'' (JNum (Finite 1)), Call_setProps ''b'' (JNum (Finite 2))]"
          and name = "''a''" and old = "JNum (Finite 1)" and val = "JNum (Finite 3)"
          and a = "''a''" and b = "''b''"
          and ?v1.0 = "JNum (Finite 1)" and ?v2.0 = "JNum (Finite 2)" and ?v3.0 = "JNum (Finite 3)"]
    by blast
qed

text \<open>
  C4. On a node with \<^verbatim>\<open>ordered\<close> true, overwriting an attribute that is already set
  changes its value and keeps its place in \<^verbatim>\<open>modifiers\<close>: the sequence after the call
  is the sequence before it with the record of that name replaced where it stands. Setting
  \<^verbatim>\<open>x\<close>, then \<^verbatim>\<open>y\<close>, then \<^verbatim>\<open>x\<close> again on a new node gives
  \<^verbatim>\<open>[{x: v3}, {y: v2}]\<close>, with \<^verbatim>\<open>x\<close> still first.
\<close>

theorem C4_overwrite_keeps_position:
  assumes "u_props w0 = []" and "ordered w0"
  shows "(map_of (u_props (perform w0 cs)) name = Some old \<longrightarrow>
      (\<exists>ms. field (getDefinition (perform w0 cs)) ''modifiers'' = Some (JArr ms) \<and>
         field (getDefinition (perform w0 (cs @ [Call_setProps name val]))) ''modifiers'' =
           Some (JArr (map (\<lambda>m. if field m name \<noteq> None then JObj [(name, val)] else m) ms)))) \<and>
    (x \<noteq> y \<longrightarrow>
      field (getDefinition (perform w0 [Call_setProps x v1, Call_setProps y v2, Call_setProps x v3]))
        ''modifiers'' = Some (JArr [JObj [(x, v3)], JObj [(y, v2)]]))"
proof (intro conjI impI)
  have ord: "\<And>ds. ordered (perform w0 ds)"
    using assms(2) by (simp add: perform_ordered)
  {
    assume present: "map_of (u_props (perform w0 cs)) name = Some old"
    let ?w = "perform w0 cs"
    let ?w' = "perform w0 (cs @ [Call_setProps name val])"
    have store': "u_props ?w' = map_set name val (u_props ?w)"
      by (simp add: perform_append perform_setProps u_props_setProps)
    have d: "distinct (map fst (u_props ?w))"
      using assms(1) by (rule reachable_distinct)
    have "field (getDefinition ?w) ''modifiers'' =
            Some (JArr (map (\<lambda>(k, x). JObj [(k, x)]) (u_props ?w)))"
      using ord by (simp add: field_modifiers modifiers_eq)
    moreover have "field (getDefinition ?w') ''modifiers'' =
            Some (JArr (map (\<lambda>m. if field m name \<noteq> None then JObj [(name, val)] else m)
              (map (\<lambda>(k, x). JObj [(k, x)]) (u_props ?w))))"
      using ord modifiers_overwrite [OF d map_of_present [OF present], of val]
      by (simp add: field_modifiers modifiers_eq store')
    ultimately show "\<exists>ms. field (getDefinition ?w) ''modifiers'' = Some (JArr ms) \<and>
         field (getDefinition ?w') ''modifiers'' =
           Some (JArr (map (\<lambda>m. if field m name \<noteq> None then JObj [(name, val)] else m) ms))"
      by blast
  }
  {
    assume xy: "x \<noteq> y"
    let ?u = "perform w0 [Call_setProps x v1, Call_setProps y v2, Call_setProps x v3]"
    have "u_props ?u = [(x, v3), (y, v2)]"
      using assms(1) xy by (simp add: perform_def setProps_def u_setProps_def)
    then show "field (getDefinition ?u) ''modifiers'' = Some (JArr [JObj [(x, v3)], JObj [(y, v2)]])"
      using ord [of "[Call_setProps x v1, Call_setProps y v2, Call_setProps x v3]"]
      by (simp add: field_modifiers modifiers_eq)
  }
qed

theorem C4_overwrite_keeps_position_witness:
  "u_props (BaseWidget True) = [] \<and> ordered (BaseWidget True) \<and>
   map_of (u_props (perform (BaseWidget True)
       [Call_setProps ''x'' (JNum (Finite 1)), Call_setProps ''y'' (JNum (Finite 2))])) ''x''
     = Some (JNum (Finite 1)) \<and>
   ''x'' \<noteq> ''y'' \<and>
   (\<exists>ms. field (getDefinition (perform (BaseWidget True)
         [Call_setProps ''x'' (JNum (Finite 1)), Call_setProps ''y'' (JNum (Finite 2))])) ''modifiers''
       = Some (JArr ms) \<and>
     field (getDefinition (perform (BaseWidget True)
         ([Call_setProps ''x'' (JNum (Finite 1)), Call_setProps ''y'' (JNum (Finite 2))] @
          [Call_setProps ''x'' (JNum (Finite 3))]))) ''modifiers''
       = Some (JArr (map (\<lambda>m. if field m ''x'' \<noteq> None then JObj [(''x'', JNum (Finite 3))] else m) ms))) \<and>
   field (getDefinition (perform (BaseWidget True)
       [Call_setProps ''x'' (JNum (Finite 1)), Call_setProps ''y'' (JNum (Finite 2)),
        Call_setProps ''x'' (JNum (Finite 3))])) ''modifiers''
     = Some (JArr [JObj [(''x'', JNum (Finite 3))], JObj [(''y'', JNum (Finite 2))]])"
proof -
  have e: "u_props (BaseWidget True) = []" and o: "ordered (BaseWidget True)"
    by (simp_all add: BaseWidget_def)
  have xy: "''x'' \<noteq> ''y''" by simp
  have p: "map_of (u_props (perform (BaseWidget True)
       [Call_setProps ''x'' (JNum (Finite 1)), Call_setProps ''y'' (JNum (Finite 2))])) ''x''
     = Some (JNum (Finite 1))"
    by (simp add: perform_def setProps_def u_setProps_def BaseWidget_def)
  show ?thesis
    using e o p xy
      C4_overwrite_keeps_position [OF e o,
        where cs = "[Call_setProps ''x'' (JNum (Finite 1)), Call_setProps ''y'' (JNum (Finite 2))]"
          and name = "''x''" and old = "JNum (Finite 1)" and val = "JNum (Finite 3)"
          and x = "''x''" and y = "''y''"
          and ?v1.0 = "JNum (Finite 1)" and ?v2.0 = "JNum (Finite 2)" and ?v3.0 = "JNum (Finite 3)"]
    by blast
qed

text \<open>
  C5. On a node with \<^verbatim>\<open>ordered\<close> true, a sequence of \<^verbatim>\<open>setProps\<close> calls on distinct
  names that are not set yet is emitted as single-key records in the order of the calls, after
  the records the node already had: \<^verbatim>\<open>opacity\<close> 0.5 then \<^verbatim>\<open>blur\<close> 3 on a new node
  gives \<^verbatim>\<open>[{opacity: 0.5}, {blur: 3}]\<close> and not the reverse.
\<close>

theorem C5_insertion_order:
  assumes "ordered w" and "distinct (map fst kvs)"
    and "set (map fst kvs) \<inter> set (map fst (u_props w)) = {}"
  shows "field (getDefinition (perform w (map (\<lambda>(k, v). Call_setProps k v) kvs))) ''modifiers'' =
           Some (JArr (map (\<lambda>(k, v). JObj [(k, v)]) (u_props w @ kvs)))"
  using assms by (simp add: field_modifiers modifiers_eq perform_ordered perform_setProps_fresh)

theorem C5_insertion_order_witness:
  "ordered (BaseWidget True) \<and>
   distinct (map fst [(''opacity'', JNum (Finite (1/2))), (''blur'', JNum (Finite 3))]) \<and>
   set (map fst [(''opacity'', JNum (Finite (1/2))), (''blur'', JNum (Finite 3))]) \<inter>
     set (map fst (u_props (BaseWidget True))) = {} \<and>
   field (getDefinition (perform (BaseWidget True)
       [Call_setProps ''opacity'' (JNum (Finite (1/2))), Call_setProps ''blur'' (JNum (Finite 3))]))
     ''modifiers'' =
     Some (JArr [JObj [(''opacity'', JNum (Finite (1/2)))], JObj [(''blur'', JNum (Finite 3))]]) \<and>
   field (getDefinition (perform (BaseWidget True)
       [Call_setProps ''opacity'' (JNum (Finite (1/2))), Call_setProps ''blur'' (JNum (Finite 3))]))
     ''modifiers'' \<noteq>
     Some (JArr [JObj [(''blur'', JNum (Finite 3))], JObj [(''opacity'', JNum (Finite (1/2)))]])"
  using C5_insertion_order [of "BaseWidget True"
      "[(''opacity'', JNum (Finite (1/2))), (''blur'', JNum (Finite 3))]"]
  by (simp add: BaseWidget_def)

text \<open>
  C6. Every attribute-setting method is to return the node it was called on, so that calls
  can be chained. \<^verbatim>\<open>layoutPriority\<close> stores its attribute and ends without
  \<^verbatim>\<open>return this\<close>: on a new \<^verbatim>\<open>Text\<close> the call \<^verbatim>\<open>layoutPriority(1)\<close> completes with
  \<^verbatim>\<open>undefined\<close>, where \<^verbatim>\<open>padding(1)\<close> completes with the node.
\<close>

theorem C6_layoutPriority_returns_undefined:
  "snd (invoke (new Text) (Call_layoutPriority (JNum (Finite 1)))) = Return JUndefined \<and>
   snd (invoke (new Text) (Call_layoutPriority (JNum (Finite 1)))) \<noteq> ReturnThis \<and>
   snd (invoke (new Text) (Call_padding (JNum (Finite 1)))) = ReturnThis"
  by (simp add: layoutPriority_def)

text \<open>
  C7. The definition is computed from the node's attributes and children at each request,
  nothing is kept from an earlier request. Requesting the definition leaves the node as it
  is; after one attribute that is set is overwritten with a different value, the next
  request gives a definition that differs from the first, has the same fields, agrees with it
  on every field but the attribute encoding, and in the encoding differs in the entry of that
  attribute only, which now has the new value.
\<close>

theorem C7_no_stale_definition:
  assumes "u_props w0 = []" and "map_of (u_props (perform w0 cs)) name = Some old"
    and "val \<noteq> old"
  shows "\<exists>d1 d2 fs1 fs2.
     invoke (perform w0 cs) Call_definition = (perform w0 cs, Return d1) \<and>
     invoke (perform w0 (cs @ [Call_setProps name val])) Call_definition =
       (perform w0 (cs @ [Call_setProps name val]), Return d2) \<and>
     d1 \<noteq> d2 \<and> d1 = JObj fs1 \<and> d2 = JObj fs2 \<and> map fst fs2 = map fst fs1 \<and>
     (\<forall>f. f \<noteq> (if ordered w0 then ''modifiers'' else ''props'') \<longrightarrow> field d2 f = field d1 f) \<and>
     (\<not> ordered w0 \<longrightarrow>
        (\<exists>ps ps'. field d1 ''props'' = Some (JObj ps) \<and> field d2 ''props'' = Some (JObj ps') \<and>
           map fst ps' = map fst ps \<and> map_of ps name = Some old \<and>
           map_of ps' = (map_of ps)(name \<mapsto> val))) \<and>
     (ordered w0 \<longrightarrow>
        (\<exists>ms. field d1 ''modifiers'' = Some (JArr ms) \<and> JObj [(name, old)] \<in> set ms \<and>
           field d2 ''modifiers'' =
             Some (JArr (map (\<lambda>m. if field m name \<noteq> None then JObj [(name, val)] else m) ms))))"
proof -
  let ?w = "perform w0 cs"
  let ?w' = "perform w0 (cs @ [Call_setProps name val])"
  let ?d1 = "getDefinition ?w" and ?d2 = "getDefinition ?w'"
  obtain t ord ps vs where w: "?w = Widget t ord ps vs" by (cases ?w)
  have ordw: "ord = ordered w0"
    using perform_ordered [of w0 cs] w by simp
  have w': "?w' = Widget t ord (map_set name val ps) vs"
    using w by (simp add: perform_append perform_setProps u_setProps_def)
  have d: "distinct (map fst ps)"
    using reachable_distinct [OF assms(1), of cs] w by simp
  have present: "map_of ps name = Some old"
    using assms(2) w by simp
  have inn: "name \<in> set (map fst ps)"
    using present by (rule map_of_present)
  have old_in: "(name, old) \<in> set ps"
    using present by (rule map_of_SomeD)
  have store_ne: "map_set name val ps \<noteq> ps"
  proof
    assume "map_set name val ps = ps"
    then have "map_of (map_set name val ps) name = map_of ps name" by simp
    with present assms(3) show False by (simp add: map_of_map_set)
  qed
  have d': "distinct (map fst (map_set name val ps))"
    using d by (rule map_set_distinct)
  have props1: "props ?w = JObj ps" using d w props_distinct [of ?w] by simp
  have props2: "props ?w' = JObj (map_set name val ps)"
    using d' w' props_distinct [of ?w'] by simp
  have mods1: "modifiers ?w = JArr (map (\<lambda>(k, x). JObj [(k, x)]) ps)"
    using w by (simp add: modifiers_eq)
  have mods2: "modifiers ?w' =
      JArr (map (\<lambda>m. if field m name \<noteq> None then JObj [(name, val)] else m)
        (map (\<lambda>(k, x). JObj [(k, x)]) ps))"
    using w' modifiers_overwrite [OF d inn, of val] by (simp add: modifiers_eq)
  have ne: "?d1 \<noteq> ?d2"
  proof (cases ord)
    case True
    have "modifiers ?w \<noteq> modifiers ?w'"
    proof
      assume "modifiers ?w = modifiers ?w'"
      then have "map (\<lambda>(k, x). JObj [(k, x)]) ps = map (\<lambda>(k, x). JObj [(k, x)]) (map_set name val ps)"
        using w w' by (simp add: modifiers_eq)
      moreover have "inj (\<lambda>(k, x). JObj [(k, x)])"
        by (auto simp: inj_on_def)
      ultimately have "ps = map_set name val ps"
        by simp
      with store_ne show False by simp
    qed
    with True show ?thesis
      using w w' ordw field_modifiers [of ?w] field_modifiers [of ?w'] by auto
  next
    case False
    have "props ?w \<noteq> props ?w'"
      using props1 props2 store_ne by auto
    with False show ?thesis
      using w w' ordw field_props [of ?w] field_props [of ?w'] by auto
  qed
  obtain fs1 where fs1: "?d1 = JObj fs1"
    and k1: "map fst fs1 = ''type'' # (if ord then ''modifiers'' else ''props'') # (if vs = [] then [] else [''views''])"
    using w by (simp add: Let_def)
  obtain fs2 where fs2: "?d2 = JObj fs2"
    and k2: "map fst fs2 = ''type'' # (if ord then ''modifiers'' else ''props'') # (if vs = [] then [] else [''views''])"
    using w' by (simp add: Let_def)
  have others: "\<forall>f. f \<noteq> (if ordered w0 then ''modifiers'' else ''props'') \<longrightarrow> field ?d2 f = field ?d1 f"
    unfolding w w' using ordw by (simp add: Let_def)
  have unord: "\<not> ordered w0 \<longrightarrow>
        (\<exists>ps ps'. field ?d1 ''props'' = Some (JObj ps) \<and> field ?d2 ''props'' = Some (JObj ps') \<and>
           map fst ps' = map fst ps \<and> map_of ps name = Some old \<and>
           map_of ps' = (map_of ps)(name \<mapsto> val))"
  proof
    assume "\<not> ordered w0"
    then have "field ?d1 ''props'' = Some (JObj ps)" "field ?d2 ''props'' = Some (JObj (map_set name val ps))"
      using props1 props2 perform_ordered [of w0] by (simp_all add: field_props)
    moreover have "map fst (map_set name val ps) = map fst ps"
      using inn by (simp add: map_set_keys)
    ultimately show "\<exists>ps ps'. field ?d1 ''props'' = Some (JObj ps) \<and> field ?d2 ''props'' = Some (JObj ps') \<and>
           map fst ps' = map fst ps \<and> map_of ps name = Some old \<and>
           map_of ps' = (map_of ps)(name \<mapsto> val)"
      using present map_of_map_set [of name val ps] by blast
  qed
  have ordd: "ordered w0 \<longrightarrow>
        (\<exists>ms. field ?d1 ''modifiers'' = Some (JArr ms) \<and> JObj [(name, old)] \<in> set ms \<and>
           field ?d2 ''modifiers'' =
             Some (JArr (map (\<lambda>m. if field m name \<noteq> None then JObj [(name, val)] else m) ms)))"
  proof
    assume "ordered w0"
    then have "field ?d1 ''modifiers'' = Some (JArr (map (\<lambda>(k, x). JObj [(k, x)]) ps))"
      and "field ?d2 ''modifiers'' =
        Some (JArr (map (\<lambda>m. if field m name \<noteq> None then JObj [(name, val)] else m)
          (map (\<lambda>(k, x). JObj [(k, x)]) ps)))"
      using mods1 mods2 perform_ordered [of w0] by (simp_all add: field_modifiers)
    moreover have "JObj [(name, old)] \<in> set (map (\<lambda>(k, x). JObj [(k, x)]) ps)"
      using old_in by force
    ultimately show "\<exists>ms. field ?d1 ''modifiers'' = Some (JArr ms) \<and> JObj [(name, old)] \<in> set ms \<and>
           field ?d2 ''modifiers'' =
             Some (JArr (map (\<lambda>m. if field m name \<noteq> None then JObj [(name, val)] else m) ms))"
      by blast
  qed
  have "invoke ?w Call_definition = (?w, Return ?d1)"
    and "invoke ?w' Call_definition = (?w', Return ?d2)"
    by simp_all
  moreover have "map fst fs2 = map fst fs1" using k1 k2 by simp
  ultimately show ?thesis
    using ne fs1 fs2 others unord ordd by blast
qed

theorem C7_no_stale_definition_witness:
  "u_props (new Text) = [] \<and>
   map_of (u_props (perform (new Text) [Call_setProps ''text'' (JStr ''hi''), Call_bold JUndefined]))
     ''text'' = Some (JStr ''hi'') \<and>
   JStr ''ho'' \<noteq> JStr ''hi'' \<and>
   invoke (perform (new Text) [Call_setProps ''text'' (JStr ''hi''), Call_bold JUndefined]) Call_definition =
     (perform (new Text) [Call_setProps ''text'' (JStr ''hi''), Call_bold JUndefined],
      Return (JObj [(''type'', JStr ''text''),
                    (''props'', JObj [(''text'', JStr ''hi''), (''bold'', JBool True)])])) \<and>
   invoke (perform (new Text) ([Call_setProps ''text'' (JStr ''hi''), Call_bold JUndefined] @
       [Call_setProps ''text'' (JStr ''ho'')])) Call_definition =
     (perform (new Text) ([Call_setProps ''text'' (JStr ''hi''), Call_bold JUndefined] @
       [Call_setProps ''text'' (JStr ''ho'')]),
      Return (JObj [(''type'', JStr ''text''),
                    (''props'', JObj [(''text'', JStr ''ho''), (''bold'', JBool True)])]))"
proof -
  let ?cs = "[Call_setProps ''text'' (JStr ''hi''), Call_bold JUndefined]"
  have e: "u_props (new Text) = []"
    by (simp add: BaseWidget_def type_set_def)
  have p: "map_of (u_props (perform (new Text) ?cs)) ''text'' = Some (JStr ''hi'')"
    by (simp add: perform_def setProps_def u_setProps_def BaseWidget_def type_set_def default_true_def)
  have n: "JStr ''ho'' \<noteq> JStr ''hi''" by simp
  obtain d1 d2 where
    i1: "invoke (perform (new Text) ?cs) Call_definition = (perform (new Text) ?cs, Return d1)" and
    i2: "invoke (perform (new Text) (?cs @ [Call_setProps ''text'' (JStr ''ho'')])) Call_definition =
          (perform (new Text) (?cs @ [Call_setProps ''text'' (JStr ''ho'')]), Return d2)" and
    "d1 \<noteq> d2"
    using C7_no_stale_definition [OF e p n] by blast
  have "d1 = JObj [(''type'', JStr ''text''),
                    (''props'', JObj [(''text'', JStr ''hi''), (''bold'', JBool True)])]"
    using i1 by (simp add: perform_def setProps_def u_setProps_def BaseWidget_def type_set_def
        default_true_def props_def fromEntries_def Let_def)
  moreover have "d2 = JObj [(''type'', JStr ''text''),
                    (''props'', JObj [(''text'', JStr ''ho''), (''bold'', JBool True)])]"
    using i2 by (simp add: perform_def setProps_def u_setProps_def BaseWidget_def type_set_def
        default_true_def props_def fromEntries_def Let_def)
  ultimately show ?thesis using e p n i1 i2 by simp
qed

text \<open>
  C8. No public operation changes \<^verbatim>\<open>type\<close> or \<^verbatim>\<open>ordered\<close>: after any call, and
  after any sequence of calls (the setters, the accessors of \<^verbatim>\<open>views\<close>, the request of
  the definition), both fields of the node are what they were.
\<close>

theorem C8_type_ordered_fixed:
  "type (fst (invoke w c)) = type w \<and> ordered (fst (invoke w c)) = ordered w \<and>
   type (perform w cs) = type w \<and> ordered (perform w cs) = ordered w"
  by (simp add: invoke_type invoke_ordered perform_type perform_ordered)

theorem C8_type_ordered_fixed_witness:
  "type (perform (new Hstack) [Call_spacing (JNum (Finite 4)), Call_setViews [JWidget (new Spacer)],
       Call_layoutPriority (JNum (Finite 1)), Call_definition]) = JStr ''hstack'' \<and>
   ordered (perform (new Hstack) [Call_spacing (JNum (Finite 4)), Call_setViews [JWidget (new Spacer)],
       Call_layoutPriority (JNum (Finite 1)), Call_definition]) = False"
  using C8_type_ordered_fixed [of "new Hstack" Call_definition
      "[Call_spacing (JNum (Finite 4)), Call_setViews [JWidget (new Spacer)],
        Call_layoutPriority (JNum (Finite 1)), Call_definition]"]
  by (simp add: BaseWidget_def type_set_def)

text \<open>
  C9. Each of the eleven exported classes constructs its node with \<^verbatim>\<open>ordered\<close> false.
  So after any sequence of calls on such a node its definition has a field \<^verbatim>\<open>props\<close>,
  an object, and no field \<^verbatim>\<open>modifiers\<close>.
\<close>

theorem C9_catalog_unordered:
  "ordered (new v) = False \<and>
   (\<exists>ps. field (getDefinition (perform (new v) cs)) ''props'' = Some (JObj ps)) \<and>
   field (getDefinition (perform (new v) cs)) ''modifiers'' = None"
  by (simp add: new_ordered perform_ordered field_props field_modifiers props_def fromEntries_def)

theorem C9_catalog_unordered_witness:
  "field (getDefinition (perform (new Text) [Call_text (JStr ''hi''), Call_bold JUndefined,
       Call_padding (JNum (Finite 10))])) ''props'' =
     Some (JObj [(''text'', JStr ''hi''), (''bold'', JBool True), (''padding'', JNum (Finite 10))]) \<and>
   field (getDefinition (perform (new Text) [Call_text (JStr ''hi''), Call_bold JUndefined,
       Call_padding (JNum (Finite 10))])) ''modifiers'' = None"
  using C9_catalog_unordered [of Text "[Call_text (JStr ''hi''), Call_bold JUndefined,
       Call_padding (JNum (Finite 10))]"]
  by (simp add: perform_def u_setProps_def BaseWidget_def type_set_def default_true_def
      props_def fromEntries_def)

text \<open>
  C10. \<^verbatim>\<open>clipped(b, a)\<close>: when \<^verbatim>\<open>a\<close> is truthy the attribute \<^verbatim>\<open>clipped\<close> is the
  record \<^verbatim>\<open>{antialiased: true}\<close> and \<^verbatim>\<open>b\<close> is dropped, as in
  \<^verbatim>\<open>clipped(false, true)\<close>; when \<^verbatim>\<open>a\<close> is falsy or absent the attribute is \<^verbatim>\<open>b\<close>,
  and \<^verbatim>\<open>true\<close> when \<^verbatim>\<open>b\<close> is absent.
\<close>

theorem C10_clipped:
  "(truthy a \<longrightarrow>
      map_of (u_props (fst (clipped w b a))) ''clipped'' = Some (JObj [(''antialiased'', JBool True)])) \<and>
   (\<not> truthy a \<longrightarrow>
      map_of (u_props (fst (clipped w b a))) ''clipped'' =
        Some (if b = JUndefined then JBool True else b)) \<and>
   map_of (u_props (fst (clipped w (JBool False) (JBool True)))) ''clipped'' =
     Some (JObj [(''antialiased'', JBool True)])"
  by (simp add: clipped_def Let_def u_setProps_def map_of_map_set default_true_def)

theorem C10_clipped_witness:
  "truthy (JStr ''yes'') \<and>
   map_of (u_props (fst (clipped (new Image) (JBool False) (JStr ''yes'')))) ''clipped'' =
     Some (JObj [(''antialiased'', JBool True)]) \<and>
   \<not> truthy (JNum (Finite 0)) \<and>
   map_of (u_props (fst (clipped (new Image) (JBool False) (JNum (Finite 0))))) ''clipped'' =
     Some (JBool False) \<and>
   \<not> truthy JUndefined \<and>
   map_of (u_props (fst (clipped (new Image) JUndefined JUndefined))) ''clipped'' = Some (JBool True)"
  using C10_clipped [of "JStr ''yes''" "new Image" "JBool False"]
    C10_clipped [of "JNum (Finite 0)" "new Image" "JBool False"]
    C10_clipped [of JUndefined "new Image" JUndefined]
  by simp

end
